theory Spec2Isabelle
  imports Complex_Main
begin

section \<open>Python strings\<close>

text \<open>
  A Python \<open>str\<close> is a sequence of Unicode code points; \<open>len\<close> counts code points.
  A code point is a natural number, a string a list of them. Literals of the source are
  written \<open>lit ''...''\<close>; the line feed is code point 10.
\<close>

type_synonym pystr = "nat list"

definition lit :: "string \<Rightarrow> pystr" where
  "lit s = map of_char s"

definition in_ranges :: "(nat \<times> nat) list \<Rightarrow> nat \<Rightarrow> bool" where
  "in_ranges rs c = list_ex (\<lambda>r. fst r \<le> c \<and> c \<le> snd r) rs"

text \<open>\<open>str.isspace\<close> on one code point (CPython 3.11, Unicode 14), which \<open>str.strip()\<close> uses.\<close>

definition isspace :: "nat \<Rightarrow> bool" where
  "isspace c = in_ranges
     [(9, 13), (28, 32), (133, 133), (160, 160), (5760, 5760), (8192, 8202),
      (8232, 8233), (8239, 8239), (8287, 8287), (12288, 12288)] c"

text \<open>\<open>str.isdigit\<close> on one code point (CPython 3.11, Unicode 14): the decimal digits of
  every script and the characters of numeric type Digit (superscripts, circled digits).\<close>

definition isdigit :: "nat \<Rightarrow> bool" where
  "isdigit c = in_ranges
     [(48, 57), (178, 179), (185, 185), (1632, 1641), (1776, 1785), (1984, 1993),
      (2406, 2415), (2534, 2543), (2662, 2671), (2790, 2799), (2918, 2927), (3046, 3055),
      (3174, 3183), (3302, 3311), (3430, 3439), (3558, 3567), (3664, 3673), (3792, 3801),
      (3872, 3881), (4160, 4169), (4240, 4249), (4969, 4977), (6112, 6121), (6160, 6169),
      (6470, 6479), (6608, 6618), (6784, 6793), (6800, 6809), (6992, 7001), (7088, 7097),
      (7232, 7241), (7248, 7257), (8304, 8304), (8308, 8313), (8320, 8329), (9312, 9320),
      (9332, 9340), (9352, 9360), (9450, 9450), (9461, 9469), (9471, 9471), (10102, 10110),
      (10112, 10120), (10122, 10130), (42528, 42537), (43216, 43225), (43264, 43273),
      (43472, 43481), (43504, 43513), (43600, 43609), (44016, 44025), (65296, 65305),
      (66720, 66729), (68160, 68163), (68912, 68921), (69216, 69224), (69714, 69722),
      (69734, 69743), (69872, 69881), (69942, 69951), (70096, 70105), (70384, 70393),
      (70736, 70745), (70864, 70873), (71248, 71257), (71360, 71369), (71472, 71481),
      (71904, 71913), (72016, 72025), (72784, 72793), (73040, 73049), (73120, 73129),
      (92768, 92777), (92864, 92873), (93008, 93017), (120782, 120831), (123200, 123209),
      (123632, 123641), (125264, 125273), (127232, 127242), (130032, 130041)] c"

text \<open>\<open>s.startswith(p)\<close>.\<close>

definition startswith :: "pystr \<Rightarrow> pystr \<Rightarrow> bool" where
  "startswith s p = (take (length p) s = p)"

text \<open>\<open>s.strip()\<close>: leading and trailing whitespace removed.\<close>

definition strip :: "pystr \<Rightarrow> pystr" where
  "strip s = rev (dropWhile isspace (rev (dropWhile isspace s)))"

section \<open>Messaging gateway: phone numbers\<close>

text \<open>
  \<^verbatim>\<open>
  def _format_phone_number(self, phone_number: str) -> str:
      cleaned = ''.join(filter(str.isdigit, phone_number))
      if not cleaned.startswith('1') and len(cleaned) == 10:
          cleaned = '1' + cleaned  # Assume US number
      return cleaned
  \<close>
\<close>

definition format_phone_number :: "pystr \<Rightarrow> pystr" where
  "format_phone_number phone_number =
     (let cleaned = filter isdigit phone_number
      in if \<not> startswith cleaned (lit ''1'') \<and> length cleaned = 10
         then lit ''1'' @ cleaned
         else cleaned)"

section \<open>More string operations\<close>

text \<open>\<open>s.split(sep)\<close> for a one-character separator: the pieces between the separators, in
  order; a string without separator (also the empty one) gives one piece.\<close>

fun split_acc :: "nat \<Rightarrow> pystr \<Rightarrow> pystr \<Rightarrow> pystr list" where
  "split_acc sep cur [] = [cur]"
| "split_acc sep cur (c # cs) =
     (if c = sep then cur # split_acc sep [] cs else split_acc sep (cur @ [c]) cs)"

definition py_split :: "pystr \<Rightarrow> nat \<Rightarrow> pystr list" where
  "py_split s sep = split_acc sep [] s"

text \<open>\<open>s.replace(old, new)\<close>: every occurrence of \<open>old\<close>, found from the left and without
  overlap, becomes \<open>new\<close>; an empty \<open>old\<close> matches before every character and at the end.\<close>

function replace :: "pystr \<Rightarrow> pystr \<Rightarrow> pystr \<Rightarrow> pystr" where
  "replace [] old new = (if old = [] then new else [])"
| "replace (c # cs) old new =
     (if old = [] then new @ c # replace cs old new
      else if startswith (c # cs) old then new @ replace (drop (length old) (c # cs)) old new
      else c # replace cs old new)"
  by pat_completeness auto
termination
  by (relation "measure (\<lambda>(s, old, new). length s)") auto

text \<open>\<open>sep.join(xs)\<close>.\<close>

fun join :: "pystr \<Rightarrow> pystr list \<Rightarrow> pystr" where
  "join sep [] = []"
| "join sep [x] = x"
| "join sep (x # y # ys) = x @ sep @ join sep (y # ys)"

text \<open>\<open>p in s\<close> for strings: \<open>p\<close> occurs in \<open>s\<close> as a contiguous piece.\<close>

fun contains :: "pystr \<Rightarrow> pystr \<Rightarrow> bool" where
  "contains [] p = (p = [])"
| "contains (c # cs) p = (startswith (c # cs) p \<or> contains cs p)"

section \<open>Response parser\<close>

text \<open>
  \<^verbatim>\<open>
  def _parse_processing_response(self, response: str) -> tuple:
      lines = response.strip().split('\n')
      action = "respond"
      message = "Thank you for your message. I'll be happy to help you."
      for line in lines:
          if line.startswith("ACTION:"):
              action = line.replace("ACTION:", "").strip()
          elif line.startswith("MESSAGE:"):
              message = line.replace("MESSAGE:", "").strip()
      return action, message
  \<close>
  The loop is \<open>parse_lines\<close>, with the two variables it assigns as arguments. No operation
  of the body can raise on a string, so the model has no error result.
\<close>

definition action_value :: "pystr \<Rightarrow> pystr" where
  "action_value line = strip (replace line (lit ''ACTION:'') [])"

definition message_value :: "pystr \<Rightarrow> pystr" where
  "message_value line = strip (replace line (lit ''MESSAGE:'') [])"

fun parse_lines :: "pystr list \<Rightarrow> pystr \<Rightarrow> pystr \<Rightarrow> pystr \<times> pystr" where
  "parse_lines [] act msg = (act, msg)"
| "parse_lines (line # lines) act msg =
     (if startswith line (lit ''ACTION:'') then parse_lines lines (action_value line) msg
      else if startswith line (lit ''MESSAGE:'') then parse_lines lines act (message_value line)
      else parse_lines lines act msg)"

definition default_action :: pystr where
  "default_action = lit ''respond''"

definition default_message :: pystr where
  "default_message = lit ''Thank you for your message. I'll be happy to help you.''"

definition parse_processing_response :: "pystr \<Rightarrow> pystr \<times> pystr" where
  "parse_processing_response response =
     parse_lines (py_split (strip response) 10) default_action default_message"

text \<open>For the properties of the parser: the lines of a list that start with each marker.\<close>

definition action_lines :: "pystr list \<Rightarrow> pystr list" where
  "action_lines ls = filter (\<lambda>l. startswith l (lit ''ACTION:'')) ls"

definition message_lines :: "pystr list \<Rightarrow> pystr list" where
  "message_lines ls = filter (\<lambda>l. startswith l (lit ''MESSAGE:'')) ls"

section \<open>Values, dictionaries and exceptions\<close>

text \<open>
  The dictionaries of the source (\<open>lead_data\<close>, \<open>campaign_data\<close>, \<open>client_data\<close>, one
  per conversation turn) map string keys to arbitrary values. The program does three things
  with a value: it formats it inside an f-string, it calls \<open>.get\<close> on it, or it passes it on.
  A value is therefore a string, a dictionary (its items and its \<open>str()\<close>), or any other
  object (None, a number, a list), of which only its \<open>str()\<close> is seen.
\<close>

datatype pyval =
    VStr pystr
  | VDict "pystr \<Rightarrow> pyval option" pystr
  | VOther pystr

type_synonym pydict = "pystr \<Rightarrow> pyval option"

datatype py_error =
    KeyError pystr
  | AttributeError
  | Raised pystr

text \<open>The replacement field \<open>{v}\<close> of an f-string: a string as it is, any other object by
  its \<open>str()\<close>.\<close>

fun format_value :: "pyval \<Rightarrow> pystr" where
  "format_value (VStr s) = s"
| "format_value (VDict items text) = text"
| "format_value (VOther text) = text"

text \<open>The defaults \<open>{}\<close> and \<open>[]\<close> of the source.\<close>

definition empty_dict :: pyval where
  "empty_dict = VDict Map.empty (lit ''{}'')"

definition empty_list :: pyval where
  "empty_list = VOther (lit ''[]'')"

text \<open>\<open>d.get(k, default)\<close> and \<open>d[k]\<close> on a dictionary.\<close>

definition dict_get :: "pydict \<Rightarrow> pystr \<Rightarrow> pyval \<Rightarrow> pyval" where
  "dict_get d k dflt = (case d k of None \<Rightarrow> dflt | Some v \<Rightarrow> v)"

definition dict_item :: "pydict \<Rightarrow> pystr \<Rightarrow> py_error + pyval" where
  "dict_item d k = (case d k of None \<Rightarrow> Inl (KeyError k) | Some v \<Rightarrow> Inr v)"

text \<open>\<open>v.get(k, default)\<close> on a value: only a dictionary has the method.\<close>

fun value_get :: "pyval \<Rightarrow> pystr \<Rightarrow> pyval \<Rightarrow> py_error + pyval" where
  "value_get (VDict items text) k dflt = Inr (dict_get items k dflt)"
| "value_get (VStr s) k dflt = Inl AttributeError"
| "value_get (VOther text) k dflt = Inl AttributeError"

section \<open>Prompt builder\<close>

text \<open>
  Both history-based builders start with the same expression:
  \<^verbatim>\<open>
  history_text = "\n".join([
      f"{msg['direction']}: {msg['content']}"
      for msg in conversation_history[-5:]
  ])
  \<close>
  A turn without one of the two keys raises KeyError, the first such turn of the slice
  deciding.
\<close>

definition format_turn :: "pydict \<Rightarrow> py_error + pystr" where
  "format_turn msg =
     (case dict_item msg (lit ''direction'') of
        Inl e \<Rightarrow> Inl e
      | Inr d \<Rightarrow>
          (case dict_item msg (lit ''content'') of
             Inl e \<Rightarrow> Inl e
           | Inr c \<Rightarrow> Inr (format_value d @ lit '': '' @ format_value c)))"

fun format_turns :: "pydict list \<Rightarrow> py_error + pystr list" where
  "format_turns [] = Inr []"
| "format_turns (msg # msgs) =
     (case format_turn msg of
        Inl e \<Rightarrow> Inl e
      | Inr l \<Rightarrow> (case format_turns msgs of Inl e \<Rightarrow> Inl e | Inr ls \<Rightarrow> Inr (l # ls)))"

text \<open>A turn as the persistence layer gives it: the \<open>Conversation\<close> table declares
  \<open>direction\<close> and \<open>content\<close> as non-null strings.\<close>

definition turn :: "pystr \<Rightarrow> pystr \<Rightarrow> pydict" where
  "turn direction content =
     [lit ''direction'' \<mapsto> VStr direction, lit ''content'' \<mapsto> VStr content]"

text \<open>\<open>xs[-5:]\<close>: the last five elements, all of them when there are fewer.\<close>

definition last5 :: "'a list \<Rightarrow> 'a list" where
  "last5 xs = drop (length xs - 5) xs"

definition history_text :: "pydict list \<Rightarrow> py_error + pystr" where
  "history_text conversation_history =
     (case format_turns (last5 conversation_history) of
        Inl e \<Rightarrow> Inl e
      | Inr ls \<Rightarrow> Inr (join [10] ls))"

text \<open>
  The three prompts are triple-quoted f-strings; each is given line by line, the lines
  joined by the line feed (for the two prompts with a history the lines are a definition
  of their own). \<open>_build_initial_prompt\<close> and \<open>_build_processing_prompt\<close> call
  \<open>.get\<close> on the value of \<open>settings\<close>, which raises when that value is not a dictionary.
\<close>

definition build_initial_prompt :: "pydict \<Rightarrow> pydict \<Rightarrow> pydict \<Rightarrow> py_error + pystr" where
  "build_initial_prompt lead_data campaign_data client_data =
     (case value_get (dict_get client_data (lit ''settings'') empty_dict) (lit ''industry'')
             (VStr (lit ''Unknown'')) of
        Inl e \<Rightarrow> Inl e
      | Inr industry \<Rightarrow>
     (case value_get (dict_get client_data (lit ''settings'') empty_dict) (lit ''services'')
             empty_list of
        Inl e \<Rightarrow> Inl e
      | Inr services \<Rightarrow> Inr (join [10] [
        [],
        lit ''        Generate a personalized initial WhatsApp message for a sales lead.'',
        lit ''        '',
        lit ''        Lead Information:'',
        lit ''        - Name: '' @ format_value (dict_get lead_data (lit ''name'') (VStr (lit ''Unknown''))),
        lit ''        - Phone: '' @ format_value (dict_get lead_data (lit ''phone'') (VStr (lit ''Unknown''))),
        lit ''        - Email: '' @ format_value (dict_get lead_data (lit ''email'') (VStr (lit ''Unknown''))),
        lit ''        - Additional Data: '' @ format_value (dict_get lead_data (lit ''lead_data'') empty_dict),
        lit ''        '',
        lit ''        Campaign Information:'',
        lit ''        - Campaign Name: '' @ format_value (dict_get campaign_data (lit ''name'') (VStr (lit ''Unknown''))),
        lit ''        - Description: '' @ format_value (dict_get campaign_data (lit ''description'') (VStr (lit ''Unknown''))),
        lit ''        - Message Templates: '' @ format_value (dict_get campaign_data (lit ''message_templates'') empty_dict),
        lit ''        '',
        lit ''        Client Information:'',
        lit ''        - Company Name: '' @ format_value (dict_get client_data (lit ''name'') (VStr (lit ''Unknown''))),
        lit ''        - Industry: '' @ format_value industry,
        lit ''        - Services: '' @ format_value services,
        lit ''        '',
        lit ''        Requirements:'',
        lit ''        1. Keep the message under 160 characters'',
        lit ''        2. Make it personal and engaging'',
        lit ''        3. Include a clear call-to-action'',
        lit ''        4. Be professional but friendly'',
        lit ''        5. Mention the specific service/product they showed interest in'',
        lit ''        '',
        lit ''        Generate only the message content, no additional formatting.'',
        lit ''        ''])))"

definition follow_up_prompt_lines ::
  "pydict \<Rightarrow> pydict \<Rightarrow> pydict \<Rightarrow> pystr \<Rightarrow> pystr list" where
  "follow_up_prompt_lines lead_data campaign_data client_data history =
     [
        [],
        lit ''        Generate a follow-up WhatsApp message based on the conversation history.'',
        lit ''        '',
        lit ''        Lead Information:'',
        lit ''        - Name: '' @ format_value (dict_get lead_data (lit ''name'') (VStr (lit ''Unknown''))),
        lit ''        - Current Status: '' @ format_value (dict_get lead_data (lit ''status'') (VStr (lit ''Unknown''))),
        lit ''        '',
        lit ''        Conversation History:'',
        lit ''        '' @ history,
        lit ''        '',
        lit ''        Campaign Information:'',
        lit ''        - Campaign: '' @ format_value (dict_get campaign_data (lit ''name'') (VStr (lit ''Unknown''))),
        lit ''        - Templates: '' @ format_value (dict_get campaign_data (lit ''message_templates'') empty_dict),
        lit ''        '',
        lit ''        Client Information:'',
        lit ''        - Company: '' @ format_value (dict_get client_data (lit ''name'') (VStr (lit ''Unknown''))),
        lit ''        '',
        lit ''        Requirements:'',
        lit ''        1. Keep under 160 characters'',
        lit ''        2. Reference previous conversation'',
        lit ''        3. Provide value or new information'',
        lit ''        4. Include clear next steps'',
        lit ''        5. Be persistent but not pushy'',
        lit ''        '',
        lit ''        Generate only the message content.'',
        lit ''        '']"

definition follow_up_prompt_text :: "pydict \<Rightarrow> pydict \<Rightarrow> pydict \<Rightarrow> pystr \<Rightarrow> pystr" where
  "follow_up_prompt_text lead_data campaign_data client_data history =
     join [10] (follow_up_prompt_lines lead_data campaign_data client_data history)"

definition build_follow_up_prompt ::
  "pydict \<Rightarrow> pydict \<Rightarrow> pydict \<Rightarrow> pydict list \<Rightarrow> py_error + pystr" where
  "build_follow_up_prompt lead_data campaign_data client_data conversation_history =
     (case history_text conversation_history of
        Inl e \<Rightarrow> Inl e
      | Inr history \<Rightarrow> Inr (follow_up_prompt_text lead_data campaign_data client_data history))"

definition processing_prompt_lines ::
  "pystr \<Rightarrow> pydict \<Rightarrow> pydict \<Rightarrow> pyval \<Rightarrow> pystr \<Rightarrow> pystr list" where
  "processing_prompt_lines incoming lead_data client_data services history =
     [
        [],
        lit ''        Analyze this incoming message and determine the appropriate response.'',
        lit ''        '',
        lit ''        Incoming Message: '' @ [34] @ incoming @ [34],
        lit ''        '',
        lit ''        Lead Information:'',
        lit ''        - Name: '' @ format_value (dict_get lead_data (lit ''name'') (VStr (lit ''Unknown''))),
        lit ''        - Status: '' @ format_value (dict_get lead_data (lit ''status'') (VStr (lit ''Unknown''))),
        lit ''        '',
        lit ''        Conversation History:'',
        lit ''        '' @ history,
        lit ''        '',
        lit ''        Client Information:'',
        lit ''        - Company: '' @ format_value (dict_get client_data (lit ''name'') (VStr (lit ''Unknown''))),
        lit ''        - Services: '' @ format_value services,
        lit ''        '',
        lit ''        Determine the appropriate action and response:'',
        lit ''        1. If they're interested in buying - respond with conversion message'',
        lit ''        2. If they have questions - answer professionally'',
        lit ''        3. If they want to speak to someone - schedule a call'',
        lit ''        4. If they're not interested - politely end conversation'',
        lit ''        5. If unclear - ask clarifying questions'',
        lit ''        '',
        lit ''        Respond in this format:'',
        lit ''        ACTION: [action_type]'',
        lit ''        MESSAGE: [response_message]'',
        lit ''        '']"

definition processing_prompt_text :: "pystr \<Rightarrow> pydict \<Rightarrow> pydict \<Rightarrow> pyval \<Rightarrow> pystr \<Rightarrow> pystr" where
  "processing_prompt_text incoming lead_data client_data services history =
     join [10] (processing_prompt_lines incoming lead_data client_data services history)"

definition build_processing_prompt ::
  "pystr \<Rightarrow> pydict \<Rightarrow> pydict \<Rightarrow> pydict \<Rightarrow> pydict list \<Rightarrow> py_error + pystr" where
  "build_processing_prompt incoming lead_data campaign_data client_data conversation_history =
     (case history_text conversation_history of
        Inl e \<Rightarrow> Inl e
      | Inr history \<Rightarrow>
     (case value_get (dict_get client_data (lit ''settings'') empty_dict) (lit ''services'')
             empty_list of
        Inl e \<Rightarrow> Inl e
      | Inr services \<Rightarrow>
          Inr (processing_prompt_text incoming lead_data client_data services history)))"

definition get_system_prompt :: pystr where
  "get_system_prompt =
     join [10] [
        [],
        lit ''        You are an AI sales agent for a digital marketing agency. Your role is to:'',
        lit ''        1. Generate personalized WhatsApp messages for sales leads'',
        lit ''        2. Be professional, friendly, and engaging'',
        lit ''        3. Focus on the specific service/product the lead showed interest in'',
        lit ''        4. Keep messages concise and actionable'',
        lit ''        5. Use the client's brand voice and messaging guidelines'',
        lit ''        6. Always include a clear next step or call-to-action'',
        lit ''        '']"

definition get_processing_system_prompt :: pystr where
  "get_processing_system_prompt =
     join [10] [
        [],
        lit ''        You are an AI sales agent analyzing incoming messages. Your role is to:'',
        lit ''        1. Understand the lead's intent and sentiment'',
        lit ''        2. Determine the appropriate response action'',
        lit ''        3. Generate relevant and helpful responses'',
        lit ''        4. Identify conversion opportunities'',
        lit ''        5. Handle objections professionally'',
        lit ''        6. Escalate to human when necessary'',
        lit ''        '']"

section \<open>Generation client\<close>

text \<open>
  \<open>AIAgent\<close> holds the settings it passes to the backend unchanged. The backend call is
  \<^verbatim>\<open>
  response = openai.ChatCompletion.create(model=self.model, messages=[
      {"role": "system", "content": <system prompt>},
      {"role": "user", "content": prompt}],
      max_tokens=self.max_tokens, temperature=self.temperature)
  ... response.choices[0].message.content ...
  \<close>
  inside a \<open>try\<close> whose handler catches every exception. The backend is a parameter: for a
  request it gives the content string of the first choice, or the exception raised by the
  call or by reading the response.
\<close>

record ai_agent =
  model :: pystr
  max_tokens :: int
  temperature :: real

record chat_request =
  req_model :: pystr
  req_system :: pystr
  req_user :: pystr
  req_max_tokens :: int
  req_temperature :: real

type_synonym chat_backend = "chat_request \<Rightarrow> py_error + pystr"

definition chat_request_of :: "ai_agent \<Rightarrow> pystr \<Rightarrow> pystr \<Rightarrow> chat_request" where
  "chat_request_of agent system_prompt prompt =
     \<lparr>req_model = model agent, req_system = system_prompt, req_user = prompt,
      req_max_tokens = max_tokens agent, req_temperature = temperature agent\<rparr>"

section \<open>Conversation decision engine\<close>

text \<open>
  \<^verbatim>\<open>
  def _get_fallback_message(self, lead_data, client_data):
      name = lead_data.get('name', 'there')
      company = client_data.get('name', 'our company')
      return f"Hi {name}! Thanks for your interest in {company}. I'd love to tell you more about our services. When would be a good time to chat?"
  \<close>
\<close>

definition get_fallback_message :: "pydict \<Rightarrow> pydict \<Rightarrow> pystr" where
  "get_fallback_message lead_data client_data =
     (let name = dict_get lead_data (lit ''name'') (VStr (lit ''there''));
          company = dict_get client_data (lit ''name'') (VStr (lit ''our company''))
      in lit ''Hi '' @ format_value name @ lit ''! Thanks for your interest in ''
         @ format_value company
         @ lit ''. I'd love to tell you more about our services. When would be a good time to chat?'')"

definition get_fallback_follow_up :: "pydict \<Rightarrow> pydict \<Rightarrow> pystr" where
  "get_fallback_follow_up lead_data client_data =
     (let name = dict_get lead_data (lit ''name'') (VStr (lit ''there''))
      in lit ''Hi '' @ format_value name
         @ lit ''! Just following up on our previous conversation. Would you like to learn more about our services?'')"

text \<open>
  The three operations build their prompt before the \<open>try\<close>, so an exception of the prompt
  builder leaves the operation; an exception of the backend call selects the fallback.
\<close>

definition generate_initial_message ::
  "ai_agent \<Rightarrow> chat_backend \<Rightarrow> pydict \<Rightarrow> pydict \<Rightarrow> pydict \<Rightarrow> py_error + pystr" where
  "generate_initial_message agent create lead_data campaign_data client_data =
     (case build_initial_prompt lead_data campaign_data client_data of
        Inl e \<Rightarrow> Inl e
      | Inr prompt \<Rightarrow>
          (case create (chat_request_of agent get_system_prompt prompt) of
             Inr content \<Rightarrow> Inr (strip content)
           | Inl e \<Rightarrow> Inr (get_fallback_message lead_data client_data)))"

definition generate_follow_up_message ::
  "ai_agent \<Rightarrow> chat_backend \<Rightarrow> pydict \<Rightarrow> pydict \<Rightarrow> pydict \<Rightarrow> pydict list
     \<Rightarrow> py_error + pystr" where
  "generate_follow_up_message agent create lead_data campaign_data client_data
       conversation_history =
     (case build_follow_up_prompt lead_data campaign_data client_data conversation_history of
        Inl e \<Rightarrow> Inl e
      | Inr prompt \<Rightarrow>
          (case create (chat_request_of agent get_system_prompt prompt) of
             Inr content \<Rightarrow> Inr (strip content)
           | Inl e \<Rightarrow> Inr (get_fallback_follow_up lead_data client_data)))"

text \<open>The dictionary \<open>process_incoming_message\<close> returns, with its three keys.\<close>

record decision =
  result_action :: pystr
  result_message :: pystr
  result_confidence :: real

definition process_incoming_message ::
  "ai_agent \<Rightarrow> chat_backend \<Rightarrow> pystr \<Rightarrow> pydict \<Rightarrow> pydict \<Rightarrow> pydict \<Rightarrow> pydict list
     \<Rightarrow> py_error + decision" where
  "process_incoming_message agent create incoming lead_data campaign_data client_data
       conversation_history =
     (case build_processing_prompt incoming lead_data campaign_data client_data
             conversation_history of
        Inl e \<Rightarrow> Inl e
      | Inr prompt \<Rightarrow>
          (case create (chat_request_of agent get_processing_system_prompt prompt) of
             Inr content \<Rightarrow>
               (case parse_processing_response (strip content) of
                  (act, response_message) \<Rightarrow>
                    Inr \<lparr>result_action = act, result_message = response_message,
                         result_confidence = 0.8\<rparr>)
           | Inl e \<Rightarrow>
               Inr \<lparr>result_action = lit ''respond'',
                    result_message = lit ''Thank you for your message. I'll have someone from our team contact you shortly.'',
                    result_confidence = 0.5\<rparr>))"

section \<open>Messaging gateway: sending\<close>













section \<open>Lead state machine\<close>

text \<open>
  Modelled from the spec: the code that changes \<open>Lead.status\<close> is missing. The sources
  declare the column (\<open>status = Column(String(50), default="new")  # new, contacted,
  responded, converted, lost\<close>) and import the API routes that would drive it
  (\<open>app.api.v1.api\<close>), which are absent. The statuses are those of the spec, section 3.
\<close>

datatype lead_status = New | Contacted | Responded | Converted | Lost

text \<open>
  Modelled from the spec: the events of section 4.5 that fire a transition, whose source is
  missing: the outgoing message was dispatched by the gateway, an inbound message arrived,
  \<open>process_incoming_message\<close> decided an action.
\<close>

datatype lead_event =
    MessageDispatched
  | InboundReceived
  | ActionDecided pystr

text \<open>
  Modelled from the spec: the transitions of section 4.5, whose source is missing. New
  goes to contacted when the outgoing message is dispatched; contacted to responded when an
  inbound message arrives; responded to converted on a conversion-type action, to lost on
  an action that indicates disengagement, and to itself on any other action; no transition
  leaves converted or lost. The spec does not enumerate the action vocabulary, so the two
  classes of actions are parameters.
\<close>

fun lead_transition ::
  "(pystr \<Rightarrow> bool) \<Rightarrow> (pystr \<Rightarrow> bool) \<Rightarrow> lead_status \<Rightarrow> lead_event \<Rightarrow> lead_status" where
  "lead_transition conversion disengagement New MessageDispatched = Contacted"
| "lead_transition conversion disengagement Contacted InboundReceived = Responded"
| "lead_transition conversion disengagement Responded (ActionDecided a) =
     (if conversion a then Converted else if disengagement a then Lost else Responded)"
| "lead_transition conversion disengagement s e = s"

text \<open>
  Modelled from the spec: the status after a sequence of events, one transition per event
  (section 5: the core is invoked once per event).
\<close>

fun lead_run ::
  "(pystr \<Rightarrow> bool) \<Rightarrow> (pystr \<Rightarrow> bool) \<Rightarrow> lead_status \<Rightarrow> lead_event list \<Rightarrow> lead_status" where
  "lead_run conversion disengagement s [] = s"
| "lead_run conversion disengagement s (e # es) =
     lead_run conversion disengagement (lead_transition conversion disengagement s e) es"

section \<open>Properties of the phone formatter\<close>

lemma lit_1: "lit ''1'' = [49]"
  by (simp add: lit_def)

lemma isdigit_1: "isdigit 49"
  by (simp add: isdigit_def in_ranges_def)

lemma startswith_1: "startswith s [49] \<longleftrightarrow> (\<exists>t. s = 49 # t)"
  by (cases s) (simp_all add: startswith_def)

text \<open>
  C10: formatting a phone number twice gives the same string as formatting it once.
  The first pass leaves digits only; when it prefixes the country code the result starts
  with \<open>1\<close> and has 11 digits, so the second pass changes nothing.
\<close>

theorem format_phone_number_idempotent:
  "format_phone_number (format_phone_number s) = format_phone_number s"
  by (simp add: format_phone_number_def Let_def lit_1 isdigit_1 startswith_1)

text \<open>
  C8, as the claim states it, fails: the input \<open>1234567890\<close> reduces to exactly ten
  digits and is returned unchanged, with ten digits and no country code prefixed, because
  it already starts with \<open>1\<close>.
\<close>

theorem format_phone_number_ten_digits_counterexample:
  "length (filter isdigit (lit ''1234567890'')) = 10 \<and>
   format_phone_number (lit ''1234567890'') = lit ''1234567890'' \<and>
   length (format_phone_number (lit ''1234567890'')) \<noteq> 11"
  by (simp add: format_phone_number_def lit_def isdigit_def in_ranges_def startswith_def)

text \<open>
  C8, amended: every character of the result is a digit; an input whose digits are exactly
  ten and do not start with \<open>1\<close> is returned as \<open>1\<close> followed by those digits (eleven
  digits); every other input is returned as exactly its digit characters, in order.
\<close>

theorem format_phone_number_digits:
  "(\<forall>c \<in> set (format_phone_number s). isdigit c) \<and>
   (length (filter isdigit s) = 10 \<and> \<not> startswith (filter isdigit s) (lit ''1'')
      \<longrightarrow> format_phone_number s = lit ''1'' @ filter isdigit s
          \<and> length (format_phone_number s) = 11) \<and>
   (\<not> (length (filter isdigit s) = 10 \<and> \<not> startswith (filter isdigit s) (lit ''1''))
      \<longrightarrow> format_phone_number s = filter isdigit s)"
  by (auto simp add: format_phone_number_def Let_def lit_1 isdigit_1)

theorem format_phone_number_digits_witness:
  "format_phone_number (lit ''(555) 234-5678'') = lit ''15552345678'' \<and>
   length (format_phone_number (lit ''(555) 234-5678'')) = 11 \<and>
   list_all isdigit (format_phone_number (lit ''(555) 234-5678'')) \<and>
   format_phone_number (lit ''+44 20 7946 0958'') = lit ''442079460958''"
proof -
  have a: "filter isdigit (lit ''(555) 234-5678'') = lit ''5552345678''"
    by (simp add: lit_def isdigit_def in_ranges_def)
  have b: "filter isdigit (lit ''+44 20 7946 0958'') = lit ''442079460958''"
    by (simp add: lit_def isdigit_def in_ranges_def)
  have c: "\<not> startswith (lit ''5552345678'') (lit ''1'')" "length (lit ''5552345678'') = 10"
     "length (lit ''442079460958'') \<noteq> 10"
    by (simp_all add: lit_def startswith_def)
  from format_phone_number_digits [of "lit ''(555) 234-5678''"]
       format_phone_number_digits [of "lit ''+44 20 7946 0958''"]
  show ?thesis
    unfolding a b list_all_iff using c by (simp add: lit_def)
qed

section \<open>Properties of the response parser\<close>

lemma message_line_not_action:
  "startswith l (lit ''MESSAGE:'') \<Longrightarrow> \<not> startswith l (lit ''ACTION:'')"
  by (cases l) (auto simp add: startswith_def lit_def)

text \<open>The loop returns, for each marker, the value of the last line that starts with it,
  and the value it was started with when there is none.\<close>

lemma parse_lines_last:
  "parse_lines ls a m =
     (if action_lines ls = [] then a else action_value (last (action_lines ls)),
      if message_lines ls = [] then m else message_value (last (message_lines ls)))"
proof (induction ls arbitrary: a m)
  case Nil
  show ?case by (simp add: action_lines_def message_lines_def)
next
  case (Cons l ls)
  show ?case
  proof (cases "startswith l (lit ''ACTION:'')")
    case True
    then have "\<not> startswith l (lit ''MESSAGE:'')"
      using message_line_not_action by blast
    with True show ?thesis
      by (simp add: Cons.IH action_lines_def message_lines_def)
  next
    case False
    then show ?thesis
      by (simp add: Cons.IH action_lines_def message_lines_def)
  qed
qed

text \<open>Without a line for a marker the default is returned, and a line in which the marker
  occurs only as the prefix gives the trimmed remainder of the line.\<close>

lemma parse_defaults:
  "(action_lines (py_split (strip s) 10) = [] \<longrightarrow>
      fst (parse_processing_response s) = lit ''respond'') \<and>
   (message_lines (py_split (strip s) 10) = [] \<longrightarrow>
      snd (parse_processing_response s)
        = lit ''Thank you for your message. I'll be happy to help you.'')"
  by (simp add: parse_processing_response_def parse_lines_last default_action_def
      default_message_def)

lemma replace_absent:
  "old \<noteq> [] \<Longrightarrow> \<not> contains s old \<Longrightarrow> replace s old new = s"
  by (induction s) auto

lemma replace_prefix:
  "old \<noteq> [] \<Longrightarrow> startswith s old \<Longrightarrow>
   replace s old new = new @ replace (drop (length old) s) old new"
  by (cases s) (auto simp add: startswith_def)

lemma marker_removed_once:
  assumes "old \<noteq> []" "startswith line old" "\<not> contains (drop (length old) line) old"
  shows "strip (replace line old []) = strip (drop (length old) line)"
  using assms by (simp add: replace_prefix replace_absent)

subsection \<open>Lines of the response and lines of the trimmed response\<close>

lemma split_acc_cur:
  "split_acc sep cur xs = (cur @ hd (split_acc sep [] xs)) # tl (split_acc sep [] xs)"
proof (induction xs arbitrary: cur)
  case Nil
  show ?case by simp
next
  case (Cons c cs)
  show ?case
  proof (cases "c = sep")
    case True
    then show ?thesis by simp
  next
    case False
    with Cons.IH [of "cur @ [c]"] Cons.IH [of "[c]"] show ?thesis by simp
  qed
qed

lemma py_split_Nil: "py_split [] sep = [[]]"
  by (simp add: py_split_def)

lemma py_split_Cons:
  "py_split (c # cs) sep =
     (if c = sep then [] # py_split cs sep
      else (c # hd (py_split cs sep)) # tl (py_split cs sep))"
  using split_acc_cur [of sep "[c]" cs] by (simp add: py_split_def)

lemma py_split_not_Nil: "py_split xs sep \<noteq> []"
  by (cases xs) (simp_all add: py_split_Nil py_split_Cons)

lemma py_split_append:
  "py_split (xs @ ys) sep =
     butlast (py_split xs sep) @ [last (py_split xs sep) @ hd (py_split ys sep)]
       @ tl (py_split ys sep)"
proof (induction xs)
  case Nil
  show ?case using py_split_not_Nil [of ys sep] by (simp add: py_split_Nil)
next
  case (Cons c cs)
  show ?case
  proof (cases "py_split cs sep")
    case Nil
    then show ?thesis using py_split_not_Nil [of cs sep] by simp
  next
    case (Cons l ls)
    then show ?thesis
      using Cons.IH by (cases ls) (simp_all add: py_split_Cons)
  qed
qed

lemma py_split_subset: "l \<in> set (py_split xs sep) \<Longrightarrow> set l \<subseteq> set xs"
proof (induction xs arbitrary: l)
  case Nil
  then show ?case by (simp add: py_split_Nil)
next
  case (Cons c cs)
  have ne: "py_split cs sep \<noteq> []"
    by (rule py_split_not_Nil)
  show ?case
  proof (cases "c = sep")
    case True
    with Cons show ?thesis
      by (auto simp add: py_split_Cons)
  next
    case False
    with Cons.prems have "l = c # hd (py_split cs sep) \<or> l \<in> set (tl (py_split cs sep))"
      by (simp add: py_split_Cons)
    then show ?thesis
    proof
      assume "l = c # hd (py_split cs sep)"
      moreover have "hd (py_split cs sep) \<in> set (py_split cs sep)"
        using ne by simp
      ultimately show ?thesis
        using Cons.IH by auto
    next
      assume "l \<in> set (tl (py_split cs sep))"
      then have "l \<in> set (py_split cs sep)"
        using ne by (auto dest: list.set_sel(2))
      then show ?thesis
        using Cons.IH by auto
    qed
  qed
qed

text \<open>A marker that has no whitespace in it, and lines with whitespace around them.\<close>

lemma startswith_whitespace_line:
  assumes "p \<noteq> []" "\<forall>c \<in> set p. \<not> isspace c" "\<forall>c \<in> set l. isspace c"
  shows "\<not> startswith l p"
proof
  assume "startswith l p"
  then have "set p \<subseteq> set l"
    unfolding startswith_def by (metis set_take_subset)
  with assms show False
    by (cases p) auto
qed

lemma startswith_after_whitespace:
  assumes "p \<noteq> []" "\<forall>c \<in> set p. \<not> isspace c" "\<forall>c \<in> set w. isspace c"
  shows "startswith (w @ h) p \<longleftrightarrow> w = [] \<and> startswith h p"
proof (cases w)
  case Nil
  then show ?thesis by simp
next
  case (Cons c cs)
  with assms have "isspace c" by simp
  moreover have "startswith (w @ h) p \<Longrightarrow> hd p = c"
    using Cons assms(1) unfolding startswith_def by (cases p) auto
  ultimately show ?thesis
    using Cons assms(1,2) by (cases p) auto
qed

lemma startswith_before_other:
  assumes "set v \<inter> set p = {}"
  shows "startswith (l @ v) p \<longleftrightarrow> startswith l p"
proof (cases "length p \<le> length l")
  case True
  then show ?thesis by (simp add: startswith_def)
next
  case False
  then have short: "length l < length p" by simp
  have "\<not> startswith l p"
    using short by (auto simp add: startswith_def)
  moreover have "\<not> startswith (l @ v) p"
  proof
    assume "startswith (l @ v) p"
    then have p: "p = l @ take (length p - length l) v"
      using short by (simp add: startswith_def)
    then have "take (length p - length l) v \<noteq> []"
      using short by auto
    then obtain c where "c \<in> set (take (length p - length l) v)"
      by (cases "take (length p - length l) v") auto
    then have "c \<in> set v" "c \<in> set p"
      using p by (auto dest: in_set_takeD) (metis Un_iff set_append)
    with assms show False by auto
  qed
  ultimately show ?thesis by simp
qed

lemma contains_subset: "p \<noteq> [] \<Longrightarrow> contains s p \<Longrightarrow> set p \<subseteq> set s"
proof (induction s)
  case Nil
  then show ?case by simp
next
  case (Cons c cs)
  from Cons.prems(2) have "startswith (c # cs) p \<or> contains cs p" by simp
  then show ?case
  proof
    assume "startswith (c # cs) p"
    then show ?thesis
      unfolding startswith_def by (metis set_take_subset)
  next
    assume "contains cs p"
    with Cons show ?thesis by auto
  qed
qed

lemma replace_before_other:
  "old \<noteq> [] \<Longrightarrow> set v \<inter> set old = {} \<Longrightarrow> replace (l @ v) old new = replace l old new @ v"
proof (induction l old new rule: replace.induct)
  case (1 old new)
  have "\<not> contains v old"
    using contains_subset [of old v] "1.prems" by (cases old) auto
  then show ?case
    using "1.prems" by (simp add: replace_absent)
next
  case (2 c cs old new)
  show ?case
  proof (cases "startswith (c # cs) old")
    case True
    have long: "length old \<le> length (c # cs)"
    proof (rule ccontr)
      assume n: "\<not> length old \<le> length (c # cs)"
      then have "take (length old) (c # cs) = c # cs"
        by simp
      with True have "old = c # cs"
        by (simp add: startswith_def)
      with n show False
        by simp
    qed
    have sw: "startswith ((c # cs) @ v) old"
      using True "2.prems"(2) startswith_before_other by blast
    have "replace ((c # cs) @ v) old new
          = new @ replace (drop (length old) ((c # cs) @ v)) old new"
      using sw "2.prems"(1) by (rule_tac replace_prefix)
    also have "drop (length old) ((c # cs) @ v) = drop (length old) (c # cs) @ v"
      using long drop_append [of "length old" "c # cs" v] by (simp del: drop_append)
    also have "replace (drop (length old) (c # cs) @ v) old new
               = replace (drop (length old) (c # cs)) old new @ v"
      using "2.IH"(2) True "2.prems" by simp
    also have "new @ replace (drop (length old) (c # cs)) old new @ v
               = replace (c # cs) old new @ v"
      using True "2.prems"(1) replace_prefix [of old "c # cs" new] by simp
    finally show ?thesis .
  next
    case False
    then have "\<not> startswith ((c # cs) @ v) old"
      using "2.prems"(2) startswith_before_other by blast
    with False "2.IH"(3) "2.prems" show ?thesis
      by simp
  qed
qed

lemma strip_before_whitespace:
  assumes "\<forall>c \<in> set v. isspace c"
  shows "strip (x @ v) = strip x"
proof (cases "\<forall>c \<in> set x. isspace c")
  case True
  with assms have a: "dropWhile isspace (x @ v) = []" and b: "dropWhile isspace x = []"
    by auto
  show ?thesis
    unfolding strip_def a b by simp
next
  case False
  then have "dropWhile isspace (x @ v) = dropWhile isspace x @ v"
    by (auto simp add: dropWhile_append1)
  moreover have "dropWhile isspace (rev v @ y) = dropWhile isspace y" for y
    by (rule dropWhile_append2) (use assms in auto)
  ultimately show ?thesis
    by (simp add: strip_def)
qed

lemma strip_decompose:
  "\<exists>w v. s = w @ strip s @ v \<and> (\<forall>c \<in> set w. isspace c) \<and> (\<forall>c \<in> set v. isspace c)"
proof -
  let ?u = "dropWhile isspace s"
  have "s = takeWhile isspace s @ ?u"
    by simp
  moreover have "rev ?u = takeWhile isspace (rev ?u) @ dropWhile isspace (rev ?u)"
    by simp
  then have "?u = strip s @ rev (takeWhile isspace (rev ?u))"
    unfolding strip_def by (metis rev_append rev_rev_ident)
  moreover have "\<forall>c \<in> set (takeWhile isspace s). isspace c"
    by (auto dest: set_takeWhileD)
  moreover have "\<forall>c \<in> set (rev (takeWhile isspace (rev ?u))). isspace c"
    by (auto dest: set_takeWhileD)
  ultimately show ?thesis
    by metis
qed

text \<open>Whitespace before a text can only hide a marker on the first line of the text.\<close>

lemma marker_lines_after_whitespace:
  assumes p: "p \<noteq> []" "\<forall>c \<in> set p. \<not> isspace c" and w: "\<forall>c \<in> set w. isspace c"
  shows "\<exists>pre. filter (\<lambda>l. startswith l p) (py_split u sep)
               = pre @ filter (\<lambda>l. startswith l p) (py_split (w @ u) sep)"
proof -
  let ?isP = "\<lambda>l. startswith l p"
  have white: "\<forall>c \<in> set l. isspace c" if "l \<in> set (py_split w sep)" for l
    using that w py_split_subset by blast
  have "\<not> ?isP l" if "l \<in> set (butlast (py_split w sep))" for l
    using that white p startswith_whitespace_line by (blast dest: in_set_butlastD)
  then have front: "filter ?isP (butlast (py_split w sep)) = []"
    by (simp add: filter_empty_conv)
  have "last (py_split w sep) \<in> set (py_split w sep)"
    using py_split_not_Nil by simp
  then have merged: "?isP (last (py_split w sep) @ h)
      \<longleftrightarrow> last (py_split w sep) = [] \<and> ?isP h" for h
    using white p startswith_after_whitespace by blast
  have u: "py_split u sep = hd (py_split u sep) # tl (py_split u sep)"
    using py_split_not_Nil by simp
  have wu: "filter ?isP (py_split (w @ u) sep)
      = filter ?isP [last (py_split w sep) @ hd (py_split u sep)]
        @ filter ?isP (tl (py_split u sep))"
    by (simp only: py_split_append filter_append front append_Nil)
  show ?thesis
  proof (cases "last (py_split w sep) = [] \<and> ?isP (hd (py_split u sep))")
    case True
    then have "filter ?isP (py_split (w @ u) sep) = filter ?isP (py_split u sep)"
      using wu u by (metis append_Cons append_Nil filter.simps)
    then show ?thesis by simp
  next
    case False
    then have "filter ?isP (py_split (w @ u) sep) = filter ?isP (tl (py_split u sep))"
      using wu merged by simp
    moreover have "filter ?isP (py_split u sep)
        = filter ?isP [hd (py_split u sep)] @ filter ?isP (tl (py_split u sep))"
      using u by (metis append_Cons append_Nil filter_append)
    ultimately show ?thesis by metis
  qed
qed

text \<open>Whitespace after a text can only lengthen its last line, which does not change the
  value the parser extracts from that line.\<close>

lemma marker_lines_before_whitespace:
  assumes p: "p \<noteq> []" "\<forall>c \<in> set p. \<not> isspace c" and v: "\<forall>c \<in> set v. isspace c"
  shows "length (filter (\<lambda>l. startswith l p) (py_split (t @ v) sep))
           = length (filter (\<lambda>l. startswith l p) (py_split t sep)) \<and>
         (filter (\<lambda>l. startswith l p) (py_split (t @ v) sep) \<noteq> [] \<longrightarrow>
            strip (replace (last (filter (\<lambda>l. startswith l p) (py_split (t @ v) sep))) p [])
            = strip (replace (last (filter (\<lambda>l. startswith l p) (py_split t sep))) p []))"
proof -
  let ?isP = "\<lambda>l. startswith l p"
  let ?F = "filter ?isP (butlast (py_split t sep))"
  let ?l = "last (py_split t sep)"
  let ?v' = "hd (py_split v sep)"
  have white: "\<forall>c \<in> set l. isspace c" if "l \<in> set (py_split v sep)" for l
    using that v py_split_subset by blast
  have "\<not> ?isP l" if "l \<in> set (tl (py_split v sep))" for l
  proof -
    from that have "l \<in> set (py_split v sep)"
      using py_split_not_Nil [of v sep] by (cases "py_split v sep") simp_all
    then show ?thesis
      using white p startswith_whitespace_line by blast
  qed
  then have rear: "filter ?isP (tl (py_split v sep)) = []"
    by (simp add: filter_empty_conv)
  have "?v' \<in> set (py_split v sep)"
    using py_split_not_Nil by simp
  then have v': "\<forall>c \<in> set ?v'. isspace c"
    using white by blast
  then have disj: "set ?v' \<inter> set p = {}"
    using p by auto
  have merged: "?isP (?l @ ?v') \<longleftrightarrow> ?isP ?l"
    using disj by (rule startswith_before_other)
  have tv: "filter ?isP (py_split (t @ v) sep) = ?F @ filter ?isP [?l @ ?v']"
    by (simp only: py_split_append filter_append rear append_Nil2)
  have t: "filter ?isP (py_split t sep) = ?F @ filter ?isP [?l]"
  proof -
    have whole: "butlast (py_split t sep) @ [?l] = py_split t sep"
      by (rule append_butlast_last_id [OF py_split_not_Nil])
    have "filter ?isP (butlast (py_split t sep) @ [?l]) = ?F @ filter ?isP [?l]"
      by (rule filter_append)
    then show ?thesis
      unfolding whole .
  qed
  have "replace (?l @ ?v') p [] = replace ?l p [] @ ?v'"
    using p(1) disj by (rule replace_before_other)
  then have val: "strip (replace (?l @ ?v') p []) = strip (replace ?l p [])"
    using v' by (simp only: strip_before_whitespace)
  show ?thesis
  proof (cases "?isP ?l")
    case True
    then have "filter ?isP (py_split (t @ v) sep) = ?F @ [?l @ ?v']"
      and "filter ?isP (py_split t sep) = ?F @ [?l]"
      unfolding tv t using merged by simp_all
    with val show ?thesis by simp
  next
    case False
    then have "filter ?isP (py_split (t @ v) sep) = ?F"
      and "filter ?isP (py_split t sep) = ?F"
      unfolding tv t using merged by simp_all
    then show ?thesis by simp
  qed
qed

lemma marker_lines_trimmed:
  assumes p: "p \<noteq> []" "\<forall>c \<in> set p. \<not> isspace c"
      and raw: "filter (\<lambda>l. startswith l p) (py_split s sep) \<noteq> []"
  shows "filter (\<lambda>l. startswith l p) (py_split (strip s) sep) \<noteq> [] \<and>
         strip (replace (last (filter (\<lambda>l. startswith l p) (py_split (strip s) sep))) p [])
         = strip (replace (last (filter (\<lambda>l. startswith l p) (py_split s sep))) p [])"
proof -
  let ?isP = "\<lambda>l. startswith l p"
  obtain w v where s: "s = w @ strip s @ v"
    and w: "\<forall>c \<in> set w. isspace c" and v: "\<forall>c \<in> set v. isspace c"
    using strip_decompose by blast
  let ?u = "strip s @ v"
  obtain pre where pre: "filter ?isP (py_split ?u sep) = pre @ filter ?isP (py_split (w @ ?u) sep)"
    using marker_lines_after_whitespace [OF p w] by blast
  have raw': "filter ?isP (py_split (w @ ?u) sep) \<noteq> []"
    using raw by (simp add: s [symmetric])
  with pre have u: "filter ?isP (py_split ?u sep) \<noteq> []"
    and lastu: "last (filter ?isP (py_split ?u sep)) = last (filter ?isP (py_split (w @ ?u) sep))"
    by simp_all
  from marker_lines_before_whitespace [OF p v, of "strip s" sep] u
  have "filter ?isP (py_split (strip s) sep) \<noteq> []"
    and "strip (replace (last (filter ?isP (py_split ?u sep))) p [])
         = strip (replace (last (filter ?isP (py_split (strip s) sep))) p [])"
    by auto
  with lastu show ?thesis
    by (simp add: s [symmetric])
qed

lemma marker_ACTION: "lit ''ACTION:'' \<noteq> []" "\<forall>c \<in> set (lit ''ACTION:''). \<not> isspace c"
  by (simp_all add: lit_def isspace_def in_ranges_def)

lemma marker_MESSAGE: "lit ''MESSAGE:'' \<noteq> []" "\<forall>c \<in> set (lit ''MESSAGE:''). \<not> isspace c"
  by (simp_all add: lit_def isspace_def in_ranges_def)

lemma parse_last_raw:
  "(action_lines (py_split s 10) \<noteq> [] \<longrightarrow>
      fst (parse_processing_response s) = action_value (last (action_lines (py_split s 10)))) \<and>
   (message_lines (py_split s 10) \<noteq> [] \<longrightarrow>
      snd (parse_processing_response s) = message_value (last (message_lines (py_split s 10))))"
  using marker_lines_trimmed [OF marker_ACTION, of s 10]
        marker_lines_trimmed [OF marker_MESSAGE, of s 10]
  by (simp add: parse_processing_response_def parse_lines_last action_lines_def
      message_lines_def action_value_def message_value_def)

text \<open>
  C1, as the claim states it, fails in two ways. The parser trims the response before it
  splits it: the only line of the response \<open>  ACTION: convert\<close> does not start with
  \<open>ACTION:\<close>, yet the returned action is \<open>convert\<close> and not \<open>respond\<close>. And for a line
  that starts with a marker, \<open>line.replace(marker, "")\<close> deletes every occurrence of the
  marker: on the response \<open>ACTION: respond\<close>, \<open>MESSAGE: Type MESSAGE: before your
  question\<close> the returned message is \<open>Type  before your question\<close>, while the trimmed
  remainder of the second line is \<open>Type MESSAGE: before your question\<close>.
\<close>

theorem parse_not_remainder_counterexample:
  "py_split (lit ''  ACTION: convert'') 10 = [lit ''  ACTION: convert''] \<and>
   \<not> startswith (lit ''  ACTION: convert'') (lit ''ACTION:'') \<and>
   fst (parse_processing_response (lit ''  ACTION: convert'')) = lit ''convert'' \<and>
   lit ''convert'' \<noteq> lit ''respond'' \<and>
   parse_processing_response
     (lit ''ACTION: respond'' @ [10] @ lit ''MESSAGE: Type MESSAGE: before your question'')
   = (lit ''respond'', lit ''Type  before your question'') \<and>
   strip (drop 8 (lit ''MESSAGE: Type MESSAGE: before your question''))
   = lit ''Type MESSAGE: before your question''"
  by (simp add: parse_processing_response_def lit_def strip_def isspace_def in_ranges_def
      py_split_def startswith_def action_value_def message_value_def default_message_def)

text \<open>
  C1, amended: for every response, the result is that of scanning, in order, the lines of
  the trimmed response, starting from the action \<open>respond\<close> and the fixed default message;
  a line that starts with \<open>ACTION:\<close> and in which \<open>ACTION:\<close> does not occur again sets the
  action to the trimmed remainder of the line; a line that starts with \<open>MESSAGE:\<close> and in
  which \<open>MESSAGE:\<close> does not occur again sets the message to the trimmed remainder; a line
  that starts with neither changes nothing. When no line of the trimmed response starts
  with \<open>ACTION:\<close> the returned action is \<open>respond\<close>, and when none starts with \<open>MESSAGE:\<close>
  the returned message is the default. The parser returns a pair for every response: no
  operation of it can raise.
\<close>

theorem parse_processing_response_scan:
  "parse_processing_response s
     = parse_lines (py_split (strip s) 10) (lit ''respond'')
         (lit ''Thank you for your message. I'll be happy to help you.'') \<and>
   (\<exists>act msg. parse_processing_response s = (act, msg)) \<and>
   parse_lines [] a m = (a, m) \<and>
   (startswith l (lit ''ACTION:'') \<and> \<not> contains (drop 7 l) (lit ''ACTION:'') \<longrightarrow>
      parse_lines (l # ls) a m = parse_lines ls (strip (drop 7 l)) m) \<and>
   (startswith l (lit ''MESSAGE:'') \<and> \<not> contains (drop 8 l) (lit ''MESSAGE:'') \<longrightarrow>
      parse_lines (l # ls) a m = parse_lines ls a (strip (drop 8 l))) \<and>
   (\<not> startswith l (lit ''ACTION:'') \<and> \<not> startswith l (lit ''MESSAGE:'') \<longrightarrow>
      parse_lines (l # ls) a m = parse_lines ls a m) \<and>
   (action_lines (py_split (strip s) 10) = [] \<longrightarrow>
      fst (parse_processing_response s) = lit ''respond'') \<and>
   (message_lines (py_split (strip s) 10) = [] \<longrightarrow>
      snd (parse_processing_response s)
        = lit ''Thank you for your message. I'll be happy to help you.'')"
proof -
  have len: "length (lit ''ACTION:'') = 7" "length (lit ''MESSAGE:'') = 8"
    by (simp_all add: lit_def)
  have scan: "parse_processing_response s
     = parse_lines (py_split (strip s) 10) (lit ''respond'')
         (lit ''Thank you for your message. I'll be happy to help you.'')"
    by (simp add: parse_processing_response_def default_action_def default_message_def)
  have pair: "\<exists>act msg. parse_processing_response s = (act, msg)"
    by (cases "parse_processing_response s") simp
  have act: "parse_lines (l # ls) a m = parse_lines ls (strip (drop 7 l)) m"
    if "startswith l (lit ''ACTION:'')" "\<not> contains (drop 7 l) (lit ''ACTION:'')"
    using that marker_removed_once [of "lit ''ACTION:''" l] marker_ACTION(1)
    by (simp add: action_value_def len)
  have msg: "parse_lines (l # ls) a m = parse_lines ls a (strip (drop 8 l))"
    if "startswith l (lit ''MESSAGE:'')" "\<not> contains (drop 8 l) (lit ''MESSAGE:'')"
    using that marker_removed_once [of "lit ''MESSAGE:''" l] marker_MESSAGE(1)
      message_line_not_action [of l]
    by (simp add: message_value_def len)
  have other: "parse_lines (l # ls) a m = parse_lines ls a m"
    if "\<not> startswith l (lit ''ACTION:'')" "\<not> startswith l (lit ''MESSAGE:'')"
    using that by simp
  from scan pair act msg other parse_defaults [of s] show ?thesis
    by simp
qed

theorem parse_processing_response_scan_witness:
  "parse_processing_response (lit ''ACTION: convert'' @ [10] @ lit ''MESSAGE: Great, let's proceed!'')
     = (lit ''convert'', lit ''Great, let's proceed!'') \<and>
   parse_processing_response (lit ''Sure, I can help.'')
     = (lit ''respond'', lit ''Thank you for your message. I'll be happy to help you.'')"
proof -
  define inp where "inp = lit ''ACTION: convert'' @ [10] @ lit ''MESSAGE: Great, let's proceed!''"
  define l1 where "l1 = lit ''ACTION: convert''"
  define l2 where "l2 = lit ''MESSAGE: Great, let's proceed!''"
  define plain where "plain = lit ''Sure, I can help.''"
  define dm where "dm = lit ''Thank you for your message. I'll be happy to help you.''"
  have lines: "py_split (strip inp) 10 = [l1, l2]" "py_split (strip plain) 10 = [plain]"
    by (simp_all add: inp_def l1_def l2_def plain_def lit_def strip_def isspace_def
        in_ranges_def py_split_def)
  have h1: "startswith l1 (lit ''ACTION:'')" "\<not> contains (drop 7 l1) (lit ''ACTION:'')"
      "strip (drop 7 l1) = lit ''convert''"
    by (simp_all add: l1_def lit_def startswith_def strip_def isspace_def in_ranges_def)
  have h2: "startswith l2 (lit ''MESSAGE:'')" "\<not> contains (drop 8 l2) (lit ''MESSAGE:'')"
      "strip (drop 8 l2) = lit ''Great, let's proceed!''"
    by (simp_all add: l2_def lit_def startswith_def strip_def isspace_def in_ranges_def)
  have h3: "\<not> startswith plain (lit ''ACTION:'')" "\<not> startswith plain (lit ''MESSAGE:'')"
    by (simp_all add: plain_def lit_def startswith_def)
  then have h4: "action_lines [plain] = []" "message_lines [plain] = []"
    by (simp_all add: action_lines_def message_lines_def)
  note first = parse_processing_response_scan
     [where s = inp and l = l1 and ls = "[l2]" and a = "lit ''respond''" and m = dm]
  note second = parse_processing_response_scan
     [where s = inp and l = l2 and ls = "[]" and a = "lit ''convert''" and m = dm]
  note third = parse_processing_response_scan
     [where s = plain and l = plain and ls = "[]" and a = "lit ''respond''" and m = dm]
  have "parse_processing_response inp = (lit ''convert'', lit ''Great, let's proceed!'')"
    using first second h1 h2 by (simp add: lines dm_def)
  moreover have "parse_processing_response plain = (lit ''respond'', dm)"
    using third h3 h4 by (simp add: lines dm_def prod_eq_iff)
  ultimately show ?thesis
    unfolding inp_def plain_def dm_def by simp
qed

text \<open>
  C2: when two or more lines of the response start with \<open>ACTION:\<close>, the returned action
  is the value the parser extracts from the last of them; the same holds for \<open>MESSAGE:\<close>
  and the returned message. This holds for the lines of the response as given and for the
  lines of the trimmed response, which are the ones the parser scans.
\<close>

theorem parse_last_occurrence_wins:
  "(2 \<le> length (action_lines (py_split s 10)) \<longrightarrow>
      fst (parse_processing_response s) = action_value (last (action_lines (py_split s 10)))) \<and>
   (2 \<le> length (message_lines (py_split s 10)) \<longrightarrow>
      snd (parse_processing_response s)
        = message_value (last (message_lines (py_split s 10)))) \<and>
   (2 \<le> length (action_lines (py_split (strip s) 10)) \<longrightarrow>
      fst (parse_processing_response s)
        = action_value (last (action_lines (py_split (strip s) 10)))) \<and>
   (2 \<le> length (message_lines (py_split (strip s) 10)) \<longrightarrow>
      snd (parse_processing_response s)
        = message_value (last (message_lines (py_split (strip s) 10))))"
proof -
  have "xs \<noteq> []" if "2 \<le> length xs" for xs :: "pystr list"
    using that by auto
  then show ?thesis
    using parse_last_raw [of s]
    by (simp add: parse_processing_response_def parse_lines_last)
qed

theorem parse_last_occurrence_wins_witness:
  "length (action_lines (py_split
      (lit ''ACTION: respond'' @ [10] @ lit ''MESSAGE: first'' @ [10] @
       lit ''ACTION: convert'' @ [10] @ lit ''MESSAGE: second '' @ [10]) 10)) = 2 \<and>
   length (message_lines (py_split
      (lit ''ACTION: respond'' @ [10] @ lit ''MESSAGE: first'' @ [10] @
       lit ''ACTION: convert'' @ [10] @ lit ''MESSAGE: second '' @ [10]) 10)) = 2 \<and>
   parse_processing_response
      (lit ''ACTION: respond'' @ [10] @ lit ''MESSAGE: first'' @ [10] @
       lit ''ACTION: convert'' @ [10] @ lit ''MESSAGE: second '' @ [10])
     = (lit ''convert'', lit ''second'')"
proof -
  define inp where "inp = lit ''ACTION: respond'' @ [10] @ lit ''MESSAGE: first'' @ [10] @
       lit ''ACTION: convert'' @ [10] @ lit ''MESSAGE: second '' @ [10]"
  have raw: "py_split inp 10 = [lit ''ACTION: respond'', lit ''MESSAGE: first'',
      lit ''ACTION: convert'', lit ''MESSAGE: second '', []]"
    by (simp add: inp_def lit_def py_split_def)
  have trimmed: "py_split (strip inp) 10 = [lit ''ACTION: respond'', lit ''MESSAGE: first'',
      lit ''ACTION: convert'', lit ''MESSAGE: second'']"
    by (simp add: inp_def lit_def strip_def isspace_def in_ranges_def py_split_def)
  have al: "action_lines (py_split inp 10) = [lit ''ACTION: respond'', lit ''ACTION: convert'']"
    "action_lines (py_split (strip inp) 10) = [lit ''ACTION: respond'', lit ''ACTION: convert'']"
    unfolding raw trimmed by (simp_all add: action_lines_def startswith_def lit_def)
  have ml: "message_lines (py_split inp 10) = [lit ''MESSAGE: first'', lit ''MESSAGE: second '']"
    "message_lines (py_split (strip inp) 10) = [lit ''MESSAGE: first'', lit ''MESSAGE: second'']"
    unfolding raw trimmed by (simp_all add: message_lines_def startswith_def lit_def)
  have av: "action_value (lit ''ACTION: convert'') = lit ''convert''"
    by (simp add: action_value_def lit_def startswith_def strip_def isspace_def in_ranges_def)
  have mv: "message_value (lit ''MESSAGE: second '') = lit ''second''"
    "message_value (lit ''MESSAGE: second'') = lit ''second''"
    by (simp_all add: message_value_def lit_def startswith_def strip_def isspace_def
        in_ranges_def)
  from parse_last_occurrence_wins [of inp]
  have "length (action_lines (py_split inp 10)) = 2 \<and>
        length (message_lines (py_split inp 10)) = 2 \<and>
        parse_processing_response inp = (lit ''convert'', lit ''second'')"
    unfolding al ml by (simp add: av mv prod_eq_iff)
  then show ?thesis
    unfolding inp_def .
qed

section \<open>Properties of the decision engine\<close>

text \<open>
  C3: when the prompt has been built and the generation call on it fails, whatever the
  exception, \<open>process_incoming_message\<close> returns the fixed decision: action \<open>respond\<close>, the
  hand-off message, confidence 0.5. The inbound message and the lead, campaign, client and
  history are arbitrary.
\<close>

theorem process_incoming_message_fallback:
  assumes "build_processing_prompt incoming lead_data campaign_data client_data history
             = Inr prompt"
      and "create (chat_request_of agent get_processing_system_prompt prompt) = Inl e"
  shows "process_incoming_message agent create incoming lead_data campaign_data client_data
           history
         = Inr \<lparr>result_action = lit ''respond'',
                result_message = lit ''Thank you for your message. I'll have someone from our team contact you shortly.'',
                result_confidence = 0.5\<rparr>"
  using assms by (simp add: process_incoming_message_def)

lemma build_processing_prompt_no_history:
  "build_processing_prompt incoming lead_data campaign_data Map.empty []
   = Inr (processing_prompt_text incoming lead_data Map.empty empty_list [])"
  by (simp add: build_processing_prompt_def history_text_def last5_def dict_get_def
      empty_dict_def)

theorem process_incoming_message_fallback_witness:
  "process_incoming_message \<lparr>model = lit ''gpt-4'', max_tokens = 150, temperature = 0.7\<rparr>
      (\<lambda>request. Inl (Raised (lit ''timeout''))) (lit ''How much does it cost?'')
      [lit ''name'' \<mapsto> VStr (lit ''Sam'')] Map.empty Map.empty []
   = Inr \<lparr>result_action = lit ''respond'',
          result_message = lit ''Thank you for your message. I'll have someone from our team contact you shortly.'',
          result_confidence = 0.5\<rparr>"
  by (rule process_incoming_message_fallback
        [where create = "\<lambda>request. Inl (Raised (lit ''timeout''))",
         OF build_processing_prompt_no_history refl])

text \<open>
  C4: every decision \<open>process_incoming_message\<close> returns has a confidence between 0 and 1:
  it is 0.5 when the generation call failed and 0.8 when it succeeded, and there is no
  third case. (The values are the literals of the source.)
\<close>

theorem process_incoming_message_confidence:
  assumes "process_incoming_message agent create incoming lead_data campaign_data client_data
             history = Inr r"
  shows "0 \<le> result_confidence r \<and> result_confidence r \<le> 1 \<and>
         (\<exists>prompt. build_processing_prompt incoming lead_data campaign_data client_data history
                     = Inr prompt \<and>
            result_confidence r =
              (if isl (create (chat_request_of agent get_processing_system_prompt prompt))
               then 0.5 else 0.8))"
  using assms
  by (auto simp add: process_incoming_message_def split: sum.splits prod.splits)

theorem process_incoming_message_confidence_witness:
  "(\<exists>r. process_incoming_message \<lparr>model = lit ''gpt-4'', max_tokens = 150, temperature = 0.7\<rparr>
          (\<lambda>request. Inl (Raised (lit ''timeout''))) (lit ''Hello'')
          Map.empty Map.empty Map.empty [] = Inr r
        \<and> result_confidence r = 0.5 \<and> 0 \<le> result_confidence r \<and> result_confidence r \<le> 1) \<and>
   (\<exists>r. process_incoming_message \<lparr>model = lit ''gpt-4'', max_tokens = 150, temperature = 0.7\<rparr>
          (\<lambda>request. Inr (lit ''ACTION: convert'')) (lit ''Hello'')
          Map.empty Map.empty Map.empty [] = Inr r
        \<and> result_confidence r = 0.8 \<and> 0 \<le> result_confidence r \<and> result_confidence r \<le> 1)"
proof -
  let ?agent = "\<lparr>model = lit ''gpt-4'', max_tokens = 150, temperature = 0.7\<rparr>"
  let ?fail = "\<lambda>request :: chat_request. (Inl (Raised (lit ''timeout'')) :: py_error + pystr)"
  let ?ok = "\<lambda>request :: chat_request. (Inr (lit ''ACTION: convert'') :: py_error + pystr)"
  obtain r1 where r1: "process_incoming_message ?agent ?fail (lit ''Hello'')
      Map.empty Map.empty Map.empty [] = Inr r1"
    by (simp add: process_incoming_message_def build_processing_prompt_no_history)
  obtain r2 where r2: "process_incoming_message ?agent ?ok (lit ''Hello'')
      Map.empty Map.empty Map.empty [] = Inr r2"
    by (cases "parse_processing_response (strip (lit ''ACTION: convert''))")
       (simp add: process_incoming_message_def build_processing_prompt_no_history)
  from process_incoming_message_confidence [OF r1]
       process_incoming_message_confidence [OF r2] r1 r2
  show ?thesis
    by auto
qed

text \<open>
  C5: when the initial prompt has been built and the generation call on it fails,
  \<open>generate_initial_message\<close> returns the fixed template with the lead's name (\<open>there\<close>
  when the key is absent) and the client's name (\<open>our company\<close> when the key is absent).
  For the lead \<open>Sam\<close> and the client \<open>Acme\<close> this is the string of the claim.
\<close>

theorem generate_initial_message_fallback:
  assumes "build_initial_prompt lead_data campaign_data client_data = Inr prompt"
      and "create (chat_request_of agent get_system_prompt prompt) = Inl e"
  shows "generate_initial_message agent create lead_data campaign_data client_data
         = Inr (lit ''Hi ''
                @ (case lead_data (lit ''name'') of
                     None \<Rightarrow> lit ''there'' | Some v \<Rightarrow> format_value v)
                @ lit ''! Thanks for your interest in ''
                @ (case client_data (lit ''name'') of
                     None \<Rightarrow> lit ''our company'' | Some v \<Rightarrow> format_value v)
                @ lit ''. I'd love to tell you more about our services. When would be a good time to chat?'')"
  using assms
  by (simp add: generate_initial_message_def get_fallback_message_def dict_get_def
      split: option.splits)

lemma build_initial_prompt_Sam_Acme:
  "\<exists>prompt. build_initial_prompt [lit ''name'' \<mapsto> VStr (lit ''Sam'')] Map.empty
      [lit ''name'' \<mapsto> VStr (lit ''Acme'')] = Inr prompt"
  by (simp add: build_initial_prompt_def dict_get_def empty_dict_def lit_def)

theorem generate_initial_message_fallback_witness:
  "generate_initial_message \<lparr>model = lit ''gpt-4'', max_tokens = 150, temperature = 0.7\<rparr>
      (\<lambda>request. Inl (Raised (lit ''timeout'')))
      [lit ''name'' \<mapsto> VStr (lit ''Sam'')] Map.empty [lit ''name'' \<mapsto> VStr (lit ''Acme'')]
   = Inr (lit ''Hi Sam! Thanks for your interest in Acme. I'd love to tell you more about our services. When would be a good time to chat?'')"
proof -
  obtain prompt where p: "build_initial_prompt [lit ''name'' \<mapsto> VStr (lit ''Sam'')] Map.empty
      [lit ''name'' \<mapsto> VStr (lit ''Acme'')] = Inr prompt"
    using build_initial_prompt_Sam_Acme by blast
  from generate_initial_message_fallback
        [where create = "\<lambda>request. Inl (Raised (lit ''timeout''))", OF p refl]
  show ?thesis
    by (simp add: lit_def)
qed

section \<open>Properties of the prompt builder\<close>

lemma length_last5: "length (last5 xs) = min 5 (length xs)"
  by (simp add: last5_def)

lemma last5_idem: "last5 (last5 xs) = last5 xs"
  by (simp add: last5_def)

lemma last5_suffix: "xs = take (length xs - 5) xs @ last5 xs"
  by (simp add: last5_def)

lemma history_text_last5: "history_text h = history_text (last5 h)"
  by (simp add: history_text_def last5_idem)

lemma format_turn_Inr:
  "format_turn t = Inr l \<Longrightarrow>
   \<exists>d c. t (lit ''direction'') = Some d \<and> t (lit ''content'') = Some c \<and>
         l = format_value d @ lit '': '' @ format_value c"
  by (auto simp add: format_turn_def dict_item_def split: option.splits sum.splits)

lemma format_turns_Inr:
  "format_turns ts = Inr ls \<Longrightarrow>
   length ls = length ts \<and> (\<forall>i < length ts. format_turn (ts ! i) = Inr (ls ! i))"
proof (induction ts arbitrary: ls)
  case Nil
  then show ?case by simp
next
  case (Cons t ts)
  from Cons.prems obtain l ls' where
    t: "format_turn t = Inr l" and ts: "format_turns ts = Inr ls'" and ls: "ls = l # ls'"
    by (auto split: sum.splits)
  from Cons.IH [OF ts] t ls show ?case
    by (auto simp add: nth_Cons split: nat.splits)
qed

lemma history_text_lines:
  assumes "history_text h = Inr ht"
  shows "\<exists>ls. ht = join [10] ls \<and> length ls = min 5 (length h) \<and>
           (\<forall>i < length ls. \<exists>d c. (last5 h ! i) (lit ''direction'') = Some d \<and>
                (last5 h ! i) (lit ''content'') = Some c \<and>
                ls ! i = format_value d @ lit '': '' @ format_value c)"
proof -
  from assms obtain ls where ls: "format_turns (last5 h) = Inr ls" and ht: "ht = join [10] ls"
    by (auto simp add: history_text_def split: sum.splits)
  from format_turns_Inr [OF ls] have
    len: "length ls = length (last5 h)" and
    each: "\<forall>i < length (last5 h). format_turn (last5 h ! i) = Inr (ls ! i)"
    by simp_all
  have "\<forall>i < length ls. \<exists>d c. (last5 h ! i) (lit ''direction'') = Some d \<and>
                (last5 h ! i) (lit ''content'') = Some c \<and>
                ls ! i = format_value d @ lit '': '' @ format_value c"
    using each len format_turn_Inr by simp
  with ht len show ?thesis
    by (auto simp add: length_last5)
qed

lemma join_append:
  "xs \<noteq> [] \<Longrightarrow> ys \<noteq> [] \<Longrightarrow> join sep (xs @ ys) = join sep xs @ sep @ join sep ys"
proof (induction sep xs rule: join.induct)
  case (1 sep)
  then show ?case by simp
next
  case (2 sep x)
  then show ?case by (cases ys) simp_all
next
  case (3 sep x y ys')
  then show ?case by simp
qed

lemma join_Cons: "zs \<noteq> [] \<Longrightarrow> join sep (x # zs) = x @ sep @ join sep zs"
  by (cases zs) simp_all

lemma join_around:
  assumes "xs \<noteq> []" "zs \<noteq> []"
  shows "join sep (xs @ [a @ y] @ zs) = (join sep xs @ sep @ a) @ y @ (sep @ join sep zs)"
  using assms by (simp add: join_append join_Cons)

text \<open>In both prompts the history text stands between a head and a tail that do not
  depend on it.\<close>

lemma follow_up_prompt_around:
  "\<exists>head tail. \<forall>ht.
     follow_up_prompt_text lead_data campaign_data client_data ht = head @ ht @ tail"
proof -
  let ?L = "follow_up_prompt_lines lead_data campaign_data client_data"
  have split_lines: "?L ht = take 8 (?L []) @ [lit ''        '' @ ht] @ drop 9 (?L [])" for ht
    by (simp add: follow_up_prompt_lines_def)
  have ne: "take 8 (?L []) \<noteq> []" "drop 9 (?L []) \<noteq> []"
    by (simp_all add: follow_up_prompt_lines_def)
  have "follow_up_prompt_text lead_data campaign_data client_data ht
        = (join [10] (take 8 (?L [])) @ [10] @ lit ''        '') @ ht
          @ ([10] @ join [10] (drop 9 (?L [])))" for ht
    unfolding follow_up_prompt_text_def
    by (subst split_lines) (rule join_around [OF ne])
  then show ?thesis by blast
qed

lemma processing_prompt_around:
  "\<exists>head tail. \<forall>ht.
     processing_prompt_text incoming lead_data client_data services ht = head @ ht @ tail"
proof -
  let ?L = "processing_prompt_lines incoming lead_data client_data services"
  have split_lines: "?L ht = take 10 (?L []) @ [lit ''        '' @ ht] @ drop 11 (?L [])" for ht
    by (simp add: processing_prompt_lines_def)
  have ne: "take 10 (?L []) \<noteq> []" "drop 11 (?L []) \<noteq> []"
    by (simp_all add: processing_prompt_lines_def)
  have "processing_prompt_text incoming lead_data client_data services ht
        = (join [10] (take 10 (?L [])) @ [10] @ lit ''        '') @ ht
          @ ([10] @ join [10] (drop 11 (?L [])))" for ht
    unfolding processing_prompt_text_def
    by (subst split_lines) (rule join_around [OF ne])
  then show ?thesis by blast
qed

lemma contains_around: "contains (xs @ p @ ys) p"
proof (induction xs)
  case Nil
  have "startswith (p @ ys) p"
    by (simp add: startswith_def)
  then show ?case
    by (cases "p @ ys") auto
next
  case (Cons x xs)
  then show ?case by simp
qed

text \<open>
  C6: both builders use the history only through its last five turns (all of them when
  there are fewer): the prompt for a history is the prompt for its last five turns, which
  are a suffix of it. When the history text is built, it consists of one line per turn of
  that suffix, in the order of the suffix, each line being the turn's direction, a colon
  and a space, and its content. The follow-up prompt is this text between a head and a
  tail that do not depend on the history; so is the processing prompt whenever the value
  of the client's \<open>settings\<close> is a dictionary (or absent), and otherwise the builder
  raises the exception of that lookup. In both cases the history text occurs in the
  prompt.
\<close>

theorem history_last_five:
  "history_text h = history_text (last5 h) \<and>
   build_follow_up_prompt lead_data campaign_data client_data h
     = build_follow_up_prompt lead_data campaign_data client_data (last5 h) \<and>
   build_processing_prompt incoming lead_data campaign_data client_data h
     = build_processing_prompt incoming lead_data campaign_data client_data (last5 h) \<and>
   h = take (length h - 5) h @ last5 h \<and>
   (\<forall>ht. history_text h = Inr ht \<longrightarrow>
      (\<exists>ls. ht = join [10] ls \<and> length ls = min 5 (length h) \<and>
         (\<forall>i < length ls. \<exists>d c. (last5 h ! i) (lit ''direction'') = Some d \<and>
              (last5 h ! i) (lit ''content'') = Some c \<and>
              ls ! i = format_value d @ lit '': '' @ format_value c))) \<and>
   (\<exists>head tail. \<forall>h'. build_follow_up_prompt lead_data campaign_data client_data h'
      = (case history_text h' of Inl e \<Rightarrow> Inl e | Inr ht \<Rightarrow> Inr (head @ ht @ tail))) \<and>
   (\<exists>head tail. \<forall>h'.
      build_processing_prompt incoming lead_data campaign_data client_data h'
      = (case history_text h' of
           Inl e \<Rightarrow> Inl e
         | Inr ht \<Rightarrow>
             (case value_get (dict_get client_data (lit ''settings'') empty_dict)
                     (lit ''services'') empty_list of
                Inl e \<Rightarrow> Inl e
              | Inr services \<Rightarrow> Inr (head @ ht @ tail)))) \<and>
   (\<forall>ht p. history_text h = Inr ht \<longrightarrow>
      (build_follow_up_prompt lead_data campaign_data client_data h = Inr p
         \<or> build_processing_prompt incoming lead_data campaign_data client_data h = Inr p)
      \<longrightarrow> contains p ht)"
proof -
  have a: "history_text h = history_text (last5 h)"
    by (rule history_text_last5)
  have b: "build_follow_up_prompt lead_data campaign_data client_data h
     = build_follow_up_prompt lead_data campaign_data client_data (last5 h)"
    unfolding build_follow_up_prompt_def using a by simp
  have c: "build_processing_prompt incoming lead_data campaign_data client_data h
     = build_processing_prompt incoming lead_data campaign_data client_data (last5 h)"
    unfolding build_processing_prompt_def using a by simp
  have d: "h = take (length h - 5) h @ last5 h"
    by (rule last5_suffix)
  have e: "\<forall>ht. history_text h = Inr ht \<longrightarrow>
      (\<exists>ls. ht = join [10] ls \<and> length ls = min 5 (length h) \<and>
         (\<forall>i < length ls. \<exists>d c. (last5 h ! i) (lit ''direction'') = Some d \<and>
              (last5 h ! i) (lit ''content'') = Some c \<and>
              ls ! i = format_value d @ lit '': '' @ format_value c))"
    using history_text_lines by blast
  obtain fhead ftail where ftext:
    "\<forall>ht. follow_up_prompt_text lead_data campaign_data client_data ht = fhead @ ht @ ftail"
    using follow_up_prompt_around by blast
  then have fall: "\<forall>h'. build_follow_up_prompt lead_data campaign_data client_data h'
      = (case history_text h' of Inl e \<Rightarrow> Inl e | Inr ht \<Rightarrow> Inr (fhead @ ht @ ftail))"
    by (simp add: build_follow_up_prompt_def split: sum.splits)
  then have f: "\<exists>head tail. \<forall>h'. build_follow_up_prompt lead_data campaign_data client_data h'
      = (case history_text h' of Inl e \<Rightarrow> Inl e | Inr ht \<Rightarrow> Inr (head @ ht @ tail))"
    by blast
  let ?services = "value_get (dict_get client_data (lit ''settings'') empty_dict)
                     (lit ''services'') empty_list"
  have g: "\<exists>head tail. \<forall>h'.
      build_processing_prompt incoming lead_data campaign_data client_data h'
      = (case history_text h' of
           Inl e \<Rightarrow> Inl e
         | Inr ht \<Rightarrow>
             (case ?services of Inl e \<Rightarrow> Inl e | Inr services \<Rightarrow> Inr (head @ ht @ tail)))"
  proof (cases ?services)
    case (Inl err)
    then have "\<forall>h'. build_processing_prompt incoming lead_data campaign_data client_data h'
      = (case history_text h' of
           Inl e \<Rightarrow> Inl e
         | Inr ht \<Rightarrow>
             (case ?services of Inl e \<Rightarrow> Inl e | Inr services \<Rightarrow> Inr ([] @ ht @ [])))"
      by (simp add: build_processing_prompt_def split: sum.splits)
    then show ?thesis by blast
  next
    case (Inr services)
    obtain head tail where
      "\<forall>ht. processing_prompt_text incoming lead_data client_data services ht
            = head @ ht @ tail"
      using processing_prompt_around by blast
    with Inr have "\<forall>h'. build_processing_prompt incoming lead_data campaign_data client_data h'
      = (case history_text h' of
           Inl e \<Rightarrow> Inl e
         | Inr ht \<Rightarrow>
             (case ?services of Inl e \<Rightarrow> Inl e | Inr services \<Rightarrow> Inr (head @ ht @ tail)))"
      by (simp add: build_processing_prompt_def split: sum.splits)
    then show ?thesis by blast
  qed
  have i: "contains p ht"
    if ht: "history_text h = Inr ht"
      and p: "build_follow_up_prompt lead_data campaign_data client_data h = Inr p
         \<or> build_processing_prompt incoming lead_data campaign_data client_data h = Inr p"
    for ht p
    using p
  proof
    assume "build_follow_up_prompt lead_data campaign_data client_data h = Inr p"
    with fall ht have "p = fhead @ ht @ ftail"
      by simp
    then show ?thesis
      by (simp only: contains_around)
  next
    assume built: "build_processing_prompt incoming lead_data campaign_data client_data h = Inr p"
    with ht obtain services where "?services = Inr services"
      and "p = processing_prompt_text incoming lead_data client_data services ht"
      by (auto simp add: build_processing_prompt_def split: sum.splits)
    moreover obtain head tail where
      "\<forall>ht. processing_prompt_text incoming lead_data client_data services ht
            = head @ ht @ tail"
      using processing_prompt_around by blast
    ultimately have "p = head @ ht @ tail"
      by simp
    then show ?thesis
      by (simp only: contains_around)
  qed
  from a b c d e f g i show ?thesis
    by blast
qed

lemma format_turn_turn: "format_turn (turn d c) = Inr (d @ lit '': '' @ c)"
  by (simp add: format_turn_def dict_item_def turn_def lit_def)

text \<open>Eight turns: both builders render turns four to eight and nothing of turns one to
  three.\<close>

theorem history_last_five_witness:
  "history_text
     [turn (lit ''outbound'') (lit ''one''), turn (lit ''inbound'') (lit ''two''),
      turn (lit ''outbound'') (lit ''three''), turn (lit ''inbound'') (lit ''four''),
      turn (lit ''outbound'') (lit ''five''), turn (lit ''inbound'') (lit ''six''),
      turn (lit ''outbound'') (lit ''seven''), turn (lit ''inbound'') (lit ''eight'')]
   = Inr (lit ''inbound: four\<newline>outbound: five\<newline>inbound: six\<newline>outbound: seven\<newline>inbound: eight'') \<and>
   (\<exists>ls. lit ''inbound: four\<newline>outbound: five\<newline>inbound: six\<newline>outbound: seven\<newline>inbound: eight''
           = join [10] ls \<and> length ls = 5) \<and>
   build_follow_up_prompt Map.empty Map.empty Map.empty
     [turn (lit ''outbound'') (lit ''one''), turn (lit ''inbound'') (lit ''two''),
      turn (lit ''outbound'') (lit ''three''), turn (lit ''inbound'') (lit ''four''),
      turn (lit ''outbound'') (lit ''five''), turn (lit ''inbound'') (lit ''six''),
      turn (lit ''outbound'') (lit ''seven''), turn (lit ''inbound'') (lit ''eight'')]
   = Inr (follow_up_prompt_text Map.empty Map.empty Map.empty
       (lit ''inbound: four\<newline>outbound: five\<newline>inbound: six\<newline>outbound: seven\<newline>inbound: eight'')) \<and>
   build_processing_prompt (lit ''Hello'') Map.empty Map.empty Map.empty
     [turn (lit ''outbound'') (lit ''one''), turn (lit ''inbound'') (lit ''two''),
      turn (lit ''outbound'') (lit ''three''), turn (lit ''inbound'') (lit ''four''),
      turn (lit ''outbound'') (lit ''five''), turn (lit ''inbound'') (lit ''six''),
      turn (lit ''outbound'') (lit ''seven''), turn (lit ''inbound'') (lit ''eight'')]
   = Inr (processing_prompt_text (lit ''Hello'') Map.empty Map.empty empty_list
       (lit ''inbound: four\<newline>outbound: five\<newline>inbound: six\<newline>outbound: seven\<newline>inbound: eight'')) \<and>
   contains (follow_up_prompt_text Map.empty Map.empty Map.empty
       (lit ''inbound: four\<newline>outbound: five\<newline>inbound: six\<newline>outbound: seven\<newline>inbound: eight''))
     (lit ''inbound: four\<newline>outbound: five\<newline>inbound: six\<newline>outbound: seven\<newline>inbound: eight'') \<and>
   contains (processing_prompt_text (lit ''Hello'') Map.empty Map.empty empty_list
       (lit ''inbound: four\<newline>outbound: five\<newline>inbound: six\<newline>outbound: seven\<newline>inbound: eight''))
     (lit ''inbound: four\<newline>outbound: five\<newline>inbound: six\<newline>outbound: seven\<newline>inbound: eight'') \<and>
   \<not> contains (follow_up_prompt_text Map.empty Map.empty Map.empty
       (lit ''inbound: four\<newline>outbound: five\<newline>inbound: six\<newline>outbound: seven\<newline>inbound: eight''))
     (lit ''outbound: one'') \<and>
   \<not> contains (follow_up_prompt_text Map.empty Map.empty Map.empty
       (lit ''inbound: four\<newline>outbound: five\<newline>inbound: six\<newline>outbound: seven\<newline>inbound: eight''))
     (lit ''inbound: two'') \<and>
   \<not> contains (follow_up_prompt_text Map.empty Map.empty Map.empty
       (lit ''inbound: four\<newline>outbound: five\<newline>inbound: six\<newline>outbound: seven\<newline>inbound: eight''))
     (lit ''outbound: three'') \<and>
   \<not> contains (processing_prompt_text (lit ''Hello'') Map.empty Map.empty empty_list
       (lit ''inbound: four\<newline>outbound: five\<newline>inbound: six\<newline>outbound: seven\<newline>inbound: eight''))
     (lit ''outbound: one'') \<and>
   \<not> contains (processing_prompt_text (lit ''Hello'') Map.empty Map.empty empty_list
       (lit ''inbound: four\<newline>outbound: five\<newline>inbound: six\<newline>outbound: seven\<newline>inbound: eight''))
     (lit ''inbound: two'') \<and>
   \<not> contains (processing_prompt_text (lit ''Hello'') Map.empty Map.empty empty_list
       (lit ''inbound: four\<newline>outbound: five\<newline>inbound: six\<newline>outbound: seven\<newline>inbound: eight''))
     (lit ''outbound: three'')"
proof -
  define h8 where "h8 =
     [turn (lit ''outbound'') (lit ''one''), turn (lit ''inbound'') (lit ''two''),
      turn (lit ''outbound'') (lit ''three''), turn (lit ''inbound'') (lit ''four''),
      turn (lit ''outbound'') (lit ''five''), turn (lit ''inbound'') (lit ''six''),
      turn (lit ''outbound'') (lit ''seven''), turn (lit ''inbound'') (lit ''eight'')]"
  define ht where "ht = lit ''inbound: four\<newline>outbound: five\<newline>inbound: six\<newline>outbound: seven\<newline>inbound: eight''"
  define fp where "fp = follow_up_prompt_text Map.empty Map.empty Map.empty ht"
  define pp where "pp = processing_prompt_text (lit ''Hello'') Map.empty Map.empty empty_list ht"
  note T = history_last_five [of h8 Map.empty Map.empty Map.empty "lit ''Hello''"]
  have l5: "last5 h8 =
     [turn (lit ''inbound'') (lit ''four''), turn (lit ''outbound'') (lit ''five''),
      turn (lit ''inbound'') (lit ''six''), turn (lit ''outbound'') (lit ''seven''),
      turn (lit ''inbound'') (lit ''eight'')]"
    by (simp add: h8_def last5_def)
  have "history_text (last5 h8) = Inr ht"
    unfolding l5 by (simp add: history_text_def last5_def format_turn_turn ht_def lit_def)
  with T have A: "history_text h8 = Inr ht"
    by simp
  with T obtain ls where ls: "ht = join [10] ls" "length ls = min 5 (length h8)"
    by blast
  have "min 5 (length h8) = 5"
    by (simp add: h8_def)
  with ls have B: "\<exists>ls. ht = join [10] ls \<and> length ls = 5"
    by auto
  have F: "build_follow_up_prompt Map.empty Map.empty Map.empty h8 = Inr fp"
    using A by (simp add: build_follow_up_prompt_def fp_def)
  have P: "build_processing_prompt (lit ''Hello'') Map.empty Map.empty Map.empty h8 = Inr pp"
    using A by (simp add: build_processing_prompt_def pp_def dict_get_def empty_dict_def)
  from T A F have CF: "contains fp ht"
    by blast
  from T A P have CP: "contains pp ht"
    by blast
  have NF: "\<not> contains fp (lit ''outbound: one'')" "\<not> contains fp (lit ''inbound: two'')"
      "\<not> contains fp (lit ''outbound: three'')"
    by (simp_all add: fp_def ht_def follow_up_prompt_text_def follow_up_prompt_lines_def
        lit_def dict_get_def empty_dict_def startswith_def)
  have NP: "\<not> contains pp (lit ''outbound: one'')" "\<not> contains pp (lit ''inbound: two'')"
      "\<not> contains pp (lit ''outbound: three'')"
    by (simp_all add: pp_def ht_def processing_prompt_text_def processing_prompt_lines_def
        lit_def dict_get_def empty_dict_def empty_list_def startswith_def)
  from A B F P CF CP NF NP show ?thesis
    unfolding h8_def ht_def fp_def pp_def by blast
qed

section \<open>Properties of the lead state machine\<close>

lemma lead_transition_terminal:
  "s = Converted \<or> s = Lost \<Longrightarrow> lead_transition conversion disengagement s e = s"
  by (cases e) auto

lemma lead_run_terminal:
  "s = Converted \<or> s = Lost \<Longrightarrow> lead_run conversion disengagement s es = s"
  by (induction es) (auto simp add: lead_transition_terminal)

text \<open>
  C7: a lead whose status is converted or lost keeps that status under every sequence of
  events of the state machine, whichever actions count as conversion or disengagement; in
  particular under the action of any decision that \<open>process_incoming_message\<close> returns.
\<close>

theorem terminal_status_stays:
  assumes "s = Converted \<or> s = Lost"
  shows "lead_run conversion disengagement s es = s \<and>
         (\<forall>r. process_incoming_message agent create incoming lead_data campaign_data
                 client_data history = Inr r
            \<longrightarrow> lead_transition conversion disengagement s (ActionDecided (result_action r))
                  = s)"
  using assms by (simp add: lead_transition_terminal lead_run_terminal)

theorem terminal_status_stays_witness:
  "lead_run (\<lambda>a. a = lit ''convert'') (\<lambda>a. a = lit ''end_conversation'') Converted
      [ActionDecided (lit ''end_conversation''), InboundReceived, MessageDispatched,
       ActionDecided (lit ''convert'')] = Converted \<and>
   lead_run (\<lambda>a. a = lit ''convert'') (\<lambda>a. a = lit ''end_conversation'') Responded
      [ActionDecided (lit ''end_conversation''), InboundReceived, MessageDispatched,
       ActionDecided (lit ''convert'')] = Lost \<and>
   (\<exists>r. process_incoming_message \<lparr>model = lit ''gpt-4'', max_tokens = 150, temperature = 0.7\<rparr>
          (\<lambda>request. Inr (lit ''ACTION: end_conversation'')) (lit ''Not interested'')
          Map.empty Map.empty Map.empty [] = Inr r \<and>
        result_action r = lit ''end_conversation'' \<and>
        lead_transition (\<lambda>a. a = lit ''convert'') (\<lambda>a. a = lit ''end_conversation'') Converted
          (ActionDecided (result_action r)) = Converted \<and>
        lead_transition (\<lambda>a. a = lit ''convert'') (\<lambda>a. a = lit ''end_conversation'') Responded
          (ActionDecided (result_action r)) = Lost)"
proof -
  let ?conv = "\<lambda>a. a = lit ''convert''"
  let ?dis = "\<lambda>a. a = lit ''end_conversation''"
  let ?agent = "\<lparr>model = lit ''gpt-4'', max_tokens = 150, temperature = 0.7\<rparr>"
  let ?ok = "\<lambda>request :: chat_request. (Inr (lit ''ACTION: end_conversation'') :: py_error + pystr)"
  let ?es = "[ActionDecided (lit ''end_conversation''), InboundReceived, MessageDispatched,
       ActionDecided (lit ''convert'')]"
  have p: "parse_processing_response (strip (lit ''ACTION: end_conversation''))
           = (lit ''end_conversation'', default_message)"
    by (simp add: parse_processing_response_def lit_def strip_def isspace_def in_ranges_def
        py_split_def startswith_def action_value_def)
  define r where "r = \<lparr>result_action = lit ''end_conversation'',
      result_message = default_message, result_confidence = 0.8\<rparr>"
  have run: "process_incoming_message ?agent ?ok (lit ''Not interested'')
      Map.empty Map.empty Map.empty [] = Inr r"
    by (simp add: process_incoming_message_def build_processing_prompt_no_history p r_def)
  have other: "lead_run ?conv ?dis Responded ?es = Lost"
       "lead_transition ?conv ?dis Responded (ActionDecided (result_action r)) = Lost"
    by (simp_all add: r_def lit_def)
  have act: "result_action r = lit ''end_conversation''"
    by (simp add: r_def)
  from terminal_status_stays [of Converted ?conv ?dis ?es ?agent ?ok "lit ''Not interested''"
        Map.empty Map.empty Map.empty "[]"] run
  have "lead_run ?conv ?dis Converted ?es = Converted \<and>
        lead_transition ?conv ?dis Converted (ActionDecided (result_action r)) = Converted"
    by simp
  with other run act show ?thesis
    by blast
qed

section \<open>Properties of the bulk send\<close>











end
